theory Spec2Isabelle
  imports Complex_Main
begin

section \<open>Wave-mode arrival detection: the detection core of modearrivals.py\<close>

text \<open>
  The embedding follows \<^verbatim>\<open>src/modearrivals.py\<close> (the module
  \<^verbatim>\<open>src/waveModeArrivals.py\<close> holds the same four functions under camel-case
  names). numpy's float64 samples are modelled as \<^typ>\<open>real\<close>: rounding and overflow
  are not modelled; underflow is modelled where the control flow of the source tests for
  it, in the product of adjacent differences of \<^verbatim>\<open>find_peaks_troughs\<close>.
  Sample indices and extremum locations are integers; numpy
  keeps the locations in a float array holding whole numbers, modelled as \<^typ>\<open>int\<close>.
  Every exception of the source is a value \<open>Inl e\<close> of the result type. Where float64
  arithmetic leaves the finite numbers without raising (a division by zero, the mean of an
  empty slice, which numpy answers with \<^verbatim>\<open>inf\<close> or \<^verbatim>\<open>nan\<close> and a
  warning), the model stops with the outcome \<open>Inl NonFinite\<close>.
\<close>

subsection \<open>Outcomes\<close>

text \<open>
  \<open>IndexError\<close>, \<open>ValueError\<close> and \<open>UnboundLocalError\<close> are the exceptions the
  source can raise; \<open>NonFinite\<close> is the outcome described above.
  Modelled from the spec: the error kinds \<open>InsufficientDataError\<close>,
  \<open>DegenerateSignalError\<close> and \<open>NoArrivalFoundError\<close> of section 7, which the source
  does not define.
\<close>

datatype error =
    IndexError
  | ValueError
  | UnboundLocalError
  | NonFinite
  | InsufficientDataError
  | DegenerateSignalError
  | NoArrivalFoundError

text \<open>Modelled from the spec: the set of the three error kinds that section 7 names, which
  the source does not define.\<close>

definition named_kinds :: "error set" where
  "named_kinds = {InsufficientDataError, DegenerateSignalError, NoArrivalFoundError}"

subsection \<open>numpy helpers\<close>

text \<open>\<^verbatim>\<open>np.diff(v)\<close>: the first differences, one element shorter than \<open>v\<close>.\<close>

definition np_diff :: "real list \<Rightarrow> real list" where
  "np_diff v = map (\<lambda>i. v ! Suc i - v ! i) [0..<length v - 1]"

text \<open>\<^verbatim>\<open>np.delete(a, 0)\<close> and \<^verbatim>\<open>np.delete(a, -1)\<close>: IndexError on an empty array.\<close>

definition np_delete_first :: "'a list \<Rightarrow> error + 'a list" where
  "np_delete_first a = (if a = [] then Inl IndexError else Inr (tl a))"

definition np_delete_last :: "'a list \<Rightarrow> error + 'a list" where
  "np_delete_last a = (if a = [] then Inl IndexError else Inr (butlast a))"

text \<open>\<^verbatim>\<open>np.where(cond)\<close> on a one-dimensional array: the indices, ascending, where
  the condition holds.\<close>

definition np_where :: "('a \<Rightarrow> bool) \<Rightarrow> 'a list \<Rightarrow> nat list" where
  "np_where c a = filter (\<lambda>i. c (a ! i)) [0..<length a]"

subsection \<open>find_peaks_troughs\<close>

text \<open>
  The float64 product \<^verbatim>\<open>dff*dff1\<close>, as far as the test \<^verbatim>\<open>mlt <= 0\<close> sees it.
  The smallest positive float64 is \<open>1 / 2 ^ 1074\<close>; under round-to-nearest-even a product of
  magnitude at most half of it, \<open>underflow_bound\<close>, is returned as zero, and any other
  product keeps the sign of the exact one. The factors are the exact differences: the
  rounding of \<^verbatim>\<open>np.diff\<close>, at most one part in \<open>2 ^ 53\<close> of a difference, is not
  modelled.
\<close>

definition min_subnormal :: real where
  "min_subnormal = 1 / 2 ^ 1074"

definition underflow_bound :: real where
  "underflow_bound = 1 / 2 ^ 1075"

definition fl_mult :: "real \<Rightarrow> real \<Rightarrow> real" where
  "fl_mult a b = (if \<bar>a * b\<bar> \<le> underflow_bound then 0 else a * b)"

record extrema =
  pks :: "real list"
  locs :: "int list"
  wds :: "int list"
  prms :: "real list"

definition find_peaks_troughs :: "real list \<Rightarrow> error + extrema" where
  "find_peaks_troughs vctr =
     (let dff0 = np_diff vctr;
          dff1 = 0 # dff0;
          dff = dff0 @ [0];
          mlt0 = map2 fl_mult dff dff1
      in case np_delete_first mlt0 of
           Inl e \<Rightarrow> Inl e
         | Inr mlt1 \<Rightarrow>
             (case np_delete_last mlt1 of
                Inl e \<Rightarrow> Inl e
              | Inr mlt \<Rightarrow>
                  (let idx = np_where (\<lambda>m. m \<le> 0) mlt;
                       locs0 = map Suc idx;
                       pks0 = map (\<lambda>l. vctr ! l) locs0;
                       locs1 = [1] @ map int locs0 @ [int (length vctr)];
                       pks1 = [vctr ! 0] @ pks0 @ [last vctr];
                       jjs = [1..<length locs1 - 1];
                       wds0 = map (\<lambda>jj. locs1 ! (jj + 1) - locs1 ! (jj - 1)) jjs;
                       prms0 = map (\<lambda>jj. min \<bar>pks1 ! jj - pks1 ! (jj - 1)\<bar>
                                              \<bar>pks1 ! (jj + 1) - pks1 ! jj\<bar>) jjs
                   in Inr \<lparr>pks = butlast (tl pks1), locs = butlast (tl locs1),
                           wds = wds0, prms = prms0\<rparr>)))"

text \<open>The series \<open>mlt\<close> of the function above after its two deletions, named for the
  proofs: entry \<open>i\<close> is the product of the differences that meet at sample \<open>i + 1\<close>.\<close>

definition mlt_of :: "real list \<Rightarrow> real list" where
  "mlt_of v = butlast (tl (map2 fl_mult (np_diff v @ [0]) (0 # np_diff v)))"

text \<open>
  No product of adjacent differences is smaller in magnitude than the smallest positive
  float64, twice \<open>underflow_bound\<close>. On float64 samples each rounded difference is within
  one part in \<open>2 ^ 53\<close> of the exact one, so the product of the rounded differences is
  above \<open>underflow_bound\<close> as well and is not returned as zero.
\<close>

definition products_above_underflow :: "real list \<Rightarrow> bool" where
  "products_above_underflow v =
     list_all (\<lambda>i. min_subnormal \<le> \<bar>(v ! (i + 2) - v ! (i + 1)) * (v ! (i + 1) - v ! i)\<bar>)
       [0..<length v - 2]"

subsection \<open>find_signal_threshold\<close>

text \<open>\<^verbatim>\<open>np.mean\<close>: the mean of an empty slice is \<^verbatim>\<open>nan\<close>, here \<open>None\<close>.\<close>

definition np_mean :: "real list \<Rightarrow> real option" where
  "np_mean a = (if a = [] then None else Some (sum_list a / real (length a)))"

text \<open>The slice \<^verbatim>\<open>a[i:j]\<close> for non-negative \<open>i\<close> and \<open>j\<close>.\<close>

definition py_slice :: "'a list \<Rightarrow> nat \<Rightarrow> nat \<Rightarrow> 'a list" where
  "py_slice a i j = take (j - i) (drop i a)"

definition incr :: nat where
  "incr = 20"

definition noiseMin :: real where
  "noiseMin = 1 / 1000000"

definition upcntLim :: nat where
  "upcntLim = 2"

text \<open>
  The variables of the loop. \<open>thresh\<close> is \<open>None\<close> while it still holds the initial empty
  list; \<open>tmpthresh\<close> is \<open>None\<close> while the name is not yet bound.
\<close>

record fst_state =
  strt :: nat
  endd :: nat
  thresh :: "real option"
  tmpthresh :: "real option"
  flag2 :: bool
  upcnt :: nat

definition fst_init :: fst_state where
  "fst_init = \<lparr>strt = 0, endd = 25, thresh = None, tmpthresh = None,
                flag2 = False, upcnt = 0\<rparr>"

text \<open>Python's truth value of \<open>thresh\<close>: the empty list and the float 0.0 are false.\<close>

definition truthy :: "real option \<Rightarrow> bool" where
  "truthy t = (case t of None \<Rightarrow> False | Some x \<Rightarrow> x \<noteq> 0)"

text \<open>One pass through the body of the while loop, up to the test that ends the loop.\<close>

definition fst_body :: "real list \<Rightarrow> fst_state \<Rightarrow> error + fst_state" where
  "fst_body vctr s =
     (let tmp = (if truthy (thresh s) then thresh s else tmpthresh s)
      in case np_mean (py_slice vctr (strt s) (endd s)) of
           None \<Rightarrow> Inl NonFinite
         | Some m \<Rightarrow>
             (let s1 = s\<lparr>strt := strt s + incr, endd := endd s + incr,
                          thresh := Some m, tmpthresh := tmp\<rparr>
              in if m > noiseMin then
                   (let u = upcnt s + 1
                    in if u > 1 then
                         (case tmp of
                            None \<Rightarrow> Inl UnboundLocalError
                          | Some t \<Rightarrow> Inr (s1\<lparr>thresh := Some t, flag2 := True, upcnt := u\<rparr>))
                       else Inr (s1\<lparr>flag2 := True, upcnt := u\<rparr>))
                 else if m \<le> noiseMin \<and> flag2 s then Inr (s1\<lparr>flag2 := False, upcnt := 0\<rparr>)
                 else Inr s1))"

text \<open>The test at the end of the body: \<^verbatim>\<open>endd > len(vctr) or (thresh > noiseMin and upcnt > upcntLim)\<close>.\<close>

definition fst_done :: "real list \<Rightarrow> fst_state \<Rightarrow> bool" where
  "fst_done vctr s =
     (endd s > length vctr \<or>
      ((case thresh s of None \<Rightarrow> False | Some t \<Rightarrow> t > noiseMin) \<and> upcnt s > upcntLim))"

function fst_loop :: "real list \<Rightarrow> fst_state \<Rightarrow> error + fst_state" where
  "fst_loop vctr s =
     (case fst_body vctr s of
        Inl e \<Rightarrow> Inl e
      | Inr s' \<Rightarrow> if fst_done vctr s' then Inr s' else fst_loop vctr s')"
  by pat_completeness auto
termination
  by (relation "measure (\<lambda>(vctr, s). length vctr + incr - endd s)")
     (auto simp: fst_done_def fst_body_def incr_def Let_def split: option.splits if_splits)

definition find_signal_threshold :: "real list \<Rightarrow> error + real" where
  "find_signal_threshold vctr =
     (case fst_loop vctr fst_init of
        Inl e \<Rightarrow> Inl e
      | Inr s \<Rightarrow> (case thresh s of None \<Rightarrow> Inl NonFinite | Some t \<Rightarrow> Inr t))"

text \<open>
  What holds of the loop's variables whenever the body is entered: the window is 25 wide,
  \<open>flag2\<close> is set exactly while the streak counter is positive, and while it is positive
  the working threshold is above the noise floor.
\<close>

definition fst_inv :: "fst_state \<Rightarrow> bool" where
  "fst_inv s =
     (endd s = strt s + 25 \<and> flag2 s = (0 < upcnt s) \<and>
      (if 0 < upcnt s then (case thresh s of None \<Rightarrow> False | Some t \<Rightarrow> noiseMin < t) else True))"

subsection \<open>The normalization both detectors share\<close>

text \<open>
  Lines 222 to 231 of \<^verbatim>\<open>get_extension_arrival\<close> and 355 to 364 of
  \<^verbatim>\<open>get_flexure_arrival\<close>, the same text. \<^verbatim>\<open>nrm[0]\<close> and \<^verbatim>\<open>nrm[1]\<close> raise
  IndexError on fewer than two extrema; a zero divisor gives \<open>NonFinite\<close>.
\<close>

definition normalize_param :: "real list \<Rightarrow> real list \<Rightarrow> error + real list" where
  "normalize_param pks0 prominence =
     (let param = map2 (\<lambda>p q. \<bar>p * q\<bar>) pks0 prominence;
          nrm = rev (sort param)
      in if length nrm < 2 then Inl IndexError
         else if nrm ! 1 = 0 then Inl NonFinite
         else if nrm ! 0 / nrm ! 1 > 5 then Inr (map (\<lambda>p. p / nrm ! 1) param)
         else if nrm ! 0 = 0 then Inl NonFinite
         else Inr (map (\<lambda>p. p / nrm ! 0) param))"

subsection \<open>get_flexure_arrival\<close>

definition get_flexure_arrival :: "real list \<Rightarrow> error + int" where
  "get_flexure_arrival sgnl =
     (case find_peaks_troughs sgnl of
        Inl e \<Rightarrow> Inl e
      | Inr ex \<Rightarrow>
          (case normalize_param (pks ex) (prms ex) of
             Inl e \<Rightarrow> Inl e
           | Inr param \<Rightarrow>
               (case find_signal_threshold param of
                  Inl e \<Rightarrow> Inl e
                | Inr th \<Rightarrow>
                    (case np_where (\<lambda>p. p > th) param of
                       [] \<Rightarrow> Inl IndexError
                     | idx # _ \<Rightarrow> if idx = 0 then Inr 0 else Inr (locs ex ! idx)))))"

subsection \<open>get_extension_arrival\<close>

text \<open>
  The loop that records segment means: \<open>tstmean\<close> grows by the pair of the segment's
  start and its mean; the next segment starts at \<^verbatim>\<open>endd + 1\<close>.
\<close>

function seg_loop ::
  "real list \<Rightarrow> nat \<Rightarrow> real \<Rightarrow> nat \<Rightarrow> nat \<Rightarrow> (nat \<times> real) list \<Rightarrow> error + (nat \<times> real) list" where
  "seg_loop param nnlocs refmaxthresh strt0 endd0 tstmean =
     (case np_mean (py_slice param strt0 endd0) of
        None \<Rightarrow> Inl NonFinite
      | Some m \<Rightarrow>
          (let tstmean' = tstmean @ [(strt0, m)];
               strt' = endd0 + 1;
               endd' = strt' + nnlocs div 2
           in if endd' > length param \<or> m > refmaxthresh then Inr tstmean'
              else seg_loop param nnlocs refmaxthresh strt' endd' tstmean'))"
  by pat_completeness auto
termination
  by (relation "measure (\<lambda>(param, nnlocs, refmaxthresh, strt0, endd0, tstmean). length param - endd0)")
     auto

text \<open>The branch taken when the last segment mean does not exceed \<open>refmaxthresh\<close>
  (lines 276 to 293).\<close>

definition branch_A ::
  "real list \<Rightarrow> int list \<Rightarrow> (nat \<times> real) list \<Rightarrow> real \<Rightarrow> error + int" where
  "branch_A param locs0 tstmean refnoisemean =
     (case np_where (\<lambda>m. m < refnoisemean) (map snd tstmean) of
        [] \<Rightarrow> Inl IndexError
      | i # is \<Rightarrow>
          (let idx0 = last (i # is);
               idx = (if idx0 = 0 then 1 else idx0)
           in if idx \<ge> length tstmean then Inl IndexError
              else
                (let cut = fst (tstmean ! idx) + 1;
                     param' = drop cut param;
                     locs' = drop cut locs0
                 in case np_where (\<lambda>p. p > refnoisemean) param' of
                      [] \<Rightarrow> Inl IndexError
                    | j # _ \<Rightarrow> if j = 0 then Inr 0 else Inr (locs' ! j))))"

text \<open>The last lines of the other branch (316 to 325): the location after \<open>idx\<close>, and
  the fallback when that location is zero.\<close>

definition branch_B_select :: "int list \<Rightarrow> nat \<Rightarrow> error + int" where
  "branch_B_select locs0 idx =
     (if idx + 1 \<ge> length locs0 then Inl IndexError
      else
        (let extIDX = locs0 ! (idx + 1)
         in if extIDX = 0 then
              (if 2 \<le> length locs0 then Inr (locs0 ! (length locs0 - 2)) else Inr (last locs0))
            else Inr extIDX))"

definition branch_B ::
  "real list \<Rightarrow> int list \<Rightarrow> (nat \<times> real) list \<Rightarrow> real \<Rightarrow> real \<Rightarrow> error + int" where
  "branch_B param locs0 tstmean refnoisemean refmaxthresh =
     (case np_where (\<lambda>m. m < refnoisemean) (map snd tstmean) of
        [] \<Rightarrow> Inl IndexError
      | i # is \<Rightarrow>
          (let s = fst (tstmean ! last (i # is));
               param1 = drop s param;
               locs1 = drop s locs0
           in case np_where (\<lambda>p. p > refmaxthresh) param1 of
                [] \<Rightarrow> Inl IndexError
              | k # _ \<Rightarrow>
                  (let param2 = take (k + 1) param1;
                       locs2 = take (k + 1) locs1
                   in case np_where (\<lambda>p. p \<le> refnoisemean) param2 of
                        [] \<Rightarrow> Inl IndexError
                      | j # js \<Rightarrow> branch_B_select locs2 (last (j # js)))))"

definition get_extension_arrival :: "real list \<Rightarrow> real \<Rightarrow> real \<Rightarrow> error + int" where
  "get_extension_arrival sgnl noisemult noisemin =
     (case find_peaks_troughs sgnl of
        Inl e \<Rightarrow> Inl e
      | Inr ex \<Rightarrow>
          (case normalize_param (pks ex) (prms ex) of
             Inl e \<Rightarrow> Inl e
           | Inr param \<Rightarrow>
               (case np_where (\<lambda>p. p = 1) param of
                  [] \<Rightarrow> Inl IndexError
                | tmpidx # _ \<Rightarrow>
                    (let nnlim = max (locs ex ! tmpidx div 4) (int (length sgnl) div 40)
                     in case np_where (\<lambda>l. l \<le> nnlim) (locs ex) of
                          [] \<Rightarrow> Inl IndexError
                        | n # ns \<Rightarrow>
                            (let nnlocs = last (n # ns);
                                 noise = py_slice param 1 nnlocs
                             in case np_mean noise of
                                  None \<Rightarrow> Inl ValueError
                                | Some mn \<Rightarrow>
                                    (let refnoisemean = max mn noisemin;
                                         refmaxthresh = max (noisemult * refnoisemean) (Max (set noise))
                                     in case seg_loop param nnlocs refmaxthresh 0 (nnlocs div 2) [] of
                                          Inl e \<Rightarrow> Inl e
                                        | Inr tstmean \<Rightarrow>
                                            if snd (last tstmean) \<le> refmaxthresh
                                            then branch_A param (locs ex) tstmean refnoisemean
                                            else branch_B param (locs ex) tstmean refnoisemean
                                                   refmaxthresh))))))"

section \<open>Properties\<close>

text \<open>The equations of the two loops are unfolded by hand where a proof needs them.\<close>

declare fst_loop.simps [simp del] seg_loop.simps [simp del]

subsection \<open>The shape of the extremum finder's result\<close>

lemma length_np_diff: "length (np_diff v) = length v - 1"
  by (simp add: np_diff_def)

lemma length_mlt_of: "length (mlt_of v) = length v - 2"
  by (simp add: mlt_of_def length_np_diff)

lemma mlt_of_nth:
  assumes "i < length v - 2"
  shows "mlt_of v ! i = fl_mult (v ! (i + 2) - v ! (i + 1)) (v ! (i + 1) - v ! i)"
proof -
  let ?d = "np_diff v"
  have len: "length ?d = length v - 1" by (rule length_np_diff)
  have i1: "Suc i < length ?d" using assms len by simp
  have "mlt_of v ! i = tl (map2 fl_mult (?d @ [0]) (0 # ?d)) ! i"
    unfolding mlt_of_def using assms len by (simp add: nth_butlast)
  also have "\<dots> = map2 fl_mult (?d @ [0]) (0 # ?d) ! Suc i"
    using i1 by (simp add: nth_tl)
  also have "\<dots> = fl_mult ((?d @ [0]) ! Suc i) ((0 # ?d) ! Suc i)"
    using i1 by simp
  also have "\<dots> = fl_mult (?d ! Suc i) (?d ! i)"
    using i1 by (simp add: nth_append)
  also have "\<dots> = fl_mult (v ! (i + 2) - v ! (i + 1)) (v ! (i + 1) - v ! i)"
    using i1 len by (simp add: np_diff_def)
  finally show ?thesis .
qed

text \<open>With two samples or more neither deletion fails, and the result is the record
  built from the indices where \<open>mlt\<close> is not positive.\<close>

lemma fpt_unfold:
  assumes "2 \<le> length v"
  shows "find_peaks_troughs v =
    (let idx = np_where (\<lambda>m. m \<le> 0) (mlt_of v);
         locs0 = map Suc idx;
         pks0 = map (\<lambda>l. v ! l) locs0;
         locs1 = [1] @ map int locs0 @ [int (length v)];
         pks1 = [v ! 0] @ pks0 @ [last v];
         jjs = [1..<length locs1 - 1];
         wds0 = map (\<lambda>jj. locs1 ! (jj + 1) - locs1 ! (jj - 1)) jjs;
         prms0 = map (\<lambda>jj. min \<bar>pks1 ! jj - pks1 ! (jj - 1)\<bar>
                                \<bar>pks1 ! (jj + 1) - pks1 ! jj\<bar>) jjs
     in Inr \<lparr>pks = butlast (tl pks1), locs = butlast (tl locs1),
             wds = wds0, prms = prms0\<rparr>)"
proof -
  let ?m0 = "map2 fl_mult (np_diff v @ [0]) (0 # np_diff v)"
  have l0: "length ?m0 = length v" using assms by (simp add: length_np_diff)
  then have ne0: "?m0 \<noteq> []" using assms by auto
  have ne1: "tl ?m0 \<noteq> []"
  proof
    assume "tl ?m0 = []"
    then have "length (tl ?m0) = 0" by (simp only: list.size)
    moreover have "length (tl ?m0) = length v - 1" using l0 by (simp only: length_tl)
    ultimately show False using assms by linarith
  qed
  show ?thesis
    unfolding find_peaks_troughs_def Let_def
    using ne0 ne1 by (simp add: np_delete_first_def np_delete_last_def mlt_of_def)
qed

lemma fpt_short: "length v < 2 \<Longrightarrow> find_peaks_troughs v = Inl IndexError"
  by (cases v; cases "tl v")
     (auto simp: find_peaks_troughs_def np_diff_def np_delete_first_def np_delete_last_def)

lemma fpt_locs:
  assumes "2 \<le> length v" and "find_peaks_troughs v = Inr ex"
  shows "locs ex = map (\<lambda>i. int (Suc i)) (np_where (\<lambda>m. m \<le> 0) (mlt_of v))"
    and "length (pks ex) = length (locs ex)"
    and "length (wds ex) = length (locs ex)"
    and "length (prms ex) = length (locs ex)"
  using assms(2) unfolding fpt_unfold[OF assms(1)] Let_def
  by (auto simp: butlast_append simp del: upt_Suc)

lemma fpt_Inr_length:
  assumes "find_peaks_troughs v = Inr ex"
  shows "2 \<le> length v"
proof (rule ccontr)
  assume "\<not> 2 \<le> length v"
  then have "find_peaks_troughs v = Inl IndexError" by (simp add: fpt_short)
  with assms show False by simp
qed

lemma sorted_np_where: "sorted_wrt (<) (np_where c a)"
  unfolding np_where_def by (rule sorted_wrt_filter) simp

lemma set_np_where: "set (np_where c a) = {i. i < length a \<and> c (a ! i)}"
  by (auto simp: np_where_def)

lemma np_where_empty: "np_where c a = [] \<longleftrightarrow> (\<forall>i < length a. \<not> c (a ! i))"
  by (auto simp: np_where_def filter_empty_conv)

lemma fpt_no_extrema:
  assumes "2 \<le> length v" and "np_where (\<lambda>m. m \<le> 0) (mlt_of v) = []"
  shows "find_peaks_troughs v = Inr \<lparr>pks = [], locs = [], wds = [], prms = []\<rparr>"
  unfolding fpt_unfold[OF assms(1)] Let_def assms(2) by simp

lemma fpt_locs_ge1:
  assumes "find_peaks_troughs v = Inr ex" and "l \<in> set (locs ex)"
  shows "1 \<le> l"
  using assms(2) unfolding fpt_locs(1)[OF fpt_Inr_length[OF assms(1)] assms(1)] by auto

text \<open>The product on samples whose differences are far from the underflow range: the
  test against \<open>underflow_bound\<close> is reached only by a product between 0 and 1 in
  magnitude.\<close>

lemma underflow_bound_lt_1: "underflow_bound < 1"
  unfolding underflow_bound_def by simp

lemma min_subnormal_le_1: "min_subnormal \<le> 1"
  unfolding min_subnormal_def by simp

lemma fl_mult_code:
  "fl_mult a b =
     (if a * b = 0 then 0
      else if 1 \<le> \<bar>a * b\<bar> then a * b
      else if \<bar>a * b\<bar> \<le> underflow_bound then 0
      else a * b)"
  using underflow_bound_lt_1 by (simp add: fl_mult_def underflow_bound_def)

declare fl_mult_code [code]

lemma underflow_bound_less: "underflow_bound < min_subnormal"
proof -
  have "(2::real) ^ 1075 = 2 * 2 ^ 1074" by simp
  then show ?thesis
    unfolding underflow_bound_def min_subnormal_def by (simp add: field_simps)
qed

lemma fl_mult_pos:
  assumes "0 < a * b" and "min_subnormal \<le> \<bar>a * b\<bar>"
  shows "0 < fl_mult a b"
proof -
  have "underflow_bound < \<bar>a * b\<bar>" using underflow_bound_less assms(2) by linarith
  then show ?thesis using assms(1) by (simp add: fl_mult_def)
qed

lemma products_above_underflow_nth:
  assumes "products_above_underflow v" and "i < length v - 2"
  shows "min_subnormal \<le> \<bar>(v ! (i + 2) - v ! (i + 1)) * (v ! (i + 1) - v ! i)\<bar>"
  using assms by (simp add: products_above_underflow_def list_all_iff)

lemma mlt_pos_incr:
  assumes "sorted_wrt (<) v" and "products_above_underflow v" and "i < length v - 2"
  shows "0 < mlt_of v ! i"
proof -
  have a: "v ! i < v ! (i + 1)" using assms(1,3) by (simp add: sorted_wrt_nth_less)
  have b: "v ! (i + 1) < v ! (i + 2)" using assms(1,3) by (simp add: sorted_wrt_nth_less)
  have "0 < (v ! (i + 2) - v ! (i + 1)) * (v ! (i + 1) - v ! i)" using a b by simp
  then show ?thesis
    unfolding mlt_of_nth[OF assms(3)]
    using products_above_underflow_nth[OF assms(2,3)] by (rule fl_mult_pos)
qed

lemma mlt_pos_decr:
  assumes "sorted_wrt (>) v" and "products_above_underflow v" and "i < length v - 2"
  shows "0 < mlt_of v ! i"
proof -
  have a: "v ! i > v ! (i + 1)"
    using sorted_wrt_nth_less[OF assms(1), of i "i + 1"] assms(3) by simp
  have b: "v ! (i + 1) > v ! (i + 2)"
    using sorted_wrt_nth_less[OF assms(1), of "i + 1" "i + 2"] assms(3) by simp
  have "0 < (v ! (i + 2) - v ! (i + 1)) * (v ! (i + 1) - v ! i)"
    using a b by (simp add: mult_neg_neg)
  then show ?thesis
    unfolding mlt_of_nth[OF assms(3)]
    using products_above_underflow_nth[OF assms(2,3)] by (rule fl_mult_pos)
qed

subsection \<open>The extremum finder on the fixture signal\<close>

text \<open>
  C1. On the nine-sample signal 0, 1, 0, -1, 0, 1, 0, -1, 0 the extremum finder returns
  the values 1, -1, 1, -1 at the locations 1, 3, 5, 7, with the widths 2, 4, 4, 4 and the
  prominences 1, 2, 2, 1.
\<close>

theorem find_peaks_troughs_fixture:
  "find_peaks_troughs [0, 1, 0, - 1, 0, 1, 0, - 1, 0] =
     Inr \<lparr>pks = [1, - 1, 1, - 1], locs = [1, 3, 5, 7], wds = [2, 4, 4, 4],
          prms = [1, 2, 2, 1]\<rparr>"
  by code_simp

text \<open>
  C2. For every signal of three samples or more the extremum finder returns four sequences
  of one length, and its locations are strictly increasing and lie strictly between 0 and
  the last index of the signal.
\<close>

theorem find_peaks_troughs_shape:
  assumes "3 \<le> length vctr"
  shows "\<exists>ex. find_peaks_troughs vctr = Inr ex
            \<and> length (pks ex) = length (locs ex)
            \<and> length (wds ex) = length (locs ex)
            \<and> length (prms ex) = length (locs ex)
            \<and> sorted_wrt (<) (locs ex)
            \<and> (\<forall>l \<in> set (locs ex). 0 < l \<and> l < int (length vctr) - 1)"
proof -
  have two: "2 \<le> length vctr" using assms by simp
  obtain ex where ex: "find_peaks_troughs vctr = Inr ex"
    unfolding fpt_unfold[OF two] Let_def by blast
  note L = fpt_locs[OF two ex]
  have "sorted_wrt (<) (locs ex)"
    unfolding L(1) by (simp add: sorted_wrt_map sorted_np_where)
  moreover have "\<forall>l \<in> set (locs ex). 0 < l \<and> l < int (length vctr) - 1"
    unfolding L(1) using assms by (auto simp: set_np_where length_mlt_of)
  ultimately show ?thesis using ex L by blast
qed

theorem find_peaks_troughs_shape_witness:
  "3 \<le> length [0, 1, 0, - 1, 0, 1, 0, - 1, 0 :: real]
   \<and> (\<exists>ex. find_peaks_troughs [0, 1, 0, - 1, 0, 1, 0, - 1, 0] = Inr ex
            \<and> length (pks ex) = length (locs ex)
            \<and> length (wds ex) = length (locs ex)
            \<and> length (prms ex) = length (locs ex)
            \<and> sorted_wrt (<) (locs ex)
            \<and> (\<forall>l \<in> set (locs ex).
                  0 < l \<and> l < int (length [0, 1, 0, - 1, 0, 1, 0, - 1, 0 :: real]) - 1))"
proof -
  have h: "3 \<le> length [0, 1, 0, - 1, 0, 1, 0, - 1, 0 :: real]" by simp
  show ?thesis using h find_peaks_troughs_shape[OF h] by blast
qed

subsection \<open>Signals without a turning point\<close>

text \<open>
  A strictly increasing signal can have extrema reported as well, when its steps are so
  small that the float64 product of two of them is returned as zero: on the signal
  0, \<open>a\<close>, \<open>2 * a\<close>, \<open>3 * a\<close> with \<open>a = 1 / 2 ^ 600\<close> both interior samples are returned.
\<close>

lemma fpt_underflow_steps:
  assumes "0 < a" and "a * a \<le> underflow_bound"
  shows "find_peaks_troughs [0, a, 2 * a, 3 * a] =
           Inr \<lparr>pks = [a, 2 * a], locs = [1, 2], wds = [1, 3], prms = [a, a]\<rparr>"
proof -
  have f: "fl_mult a a = 0" using assms by (simp add: fl_mult_def)
  have m: "mlt_of [0, a, 2 * a, 3 * a] = [0, 0]"
    using f by (simp add: mlt_of_def np_diff_def upt_rec numeral_nat)
  have w: "np_where (\<lambda>m. m \<le> 0) [0, 0 :: real] = [0, 1]"
    by (simp add: np_where_def upt_rec numeral_nat)
  show ?thesis
    using assms(1) by (simp add: fpt_unfold m w Let_def upt_rec numeral_nat)
qed

lemma find_peaks_troughs_underflow_example:
  "sorted_wrt (<) [0, 1 / 2 ^ 600, 2 * (1 / 2 ^ 600), 3 * (1 / 2 ^ 600) :: real]
   \<and> find_peaks_troughs [0, 1 / 2 ^ 600, 2 * (1 / 2 ^ 600), 3 * (1 / 2 ^ 600)] =
       Inr \<lparr>pks = [1 / 2 ^ 600, 2 * (1 / 2 ^ 600)], locs = [1, 2], wds = [1, 3],
            prms = [1 / 2 ^ 600, 1 / 2 ^ 600]\<rparr>"
proof -
  have p: "(0::real) < 1 / 2 ^ 600" by simp
  have "(2::real) ^ 1200 = 2 ^ 600 * 2 ^ 600" by simp
  then have u: "(1 / 2 ^ 600) * (1 / 2 ^ 600) \<le> underflow_bound"
    unfolding underflow_bound_def by (simp add: field_simps)
  have s: "sorted_wrt (<) [0, 1 / 2 ^ 600, 2 * (1 / 2 ^ 600), 3 * (1 / 2 ^ 600) :: real]"
    by simp
  show ?thesis using s fpt_underflow_steps[OF p u] by blast
qed

text \<open>
  C4 as stated: a strictly monotonic or constant signal of three samples or more gives
  four empty sequences. It fails on a constant signal: the three-sample signal 5, 5, 5
  has the product 0 at its one interior sample, which the test \<open>mlt \<le> 0\<close> of the source
  accepts, so that sample is returned as an extremum of prominence 0.
\<close>

theorem find_peaks_troughs_constant_counterexample:
  "find_peaks_troughs [5, 5, 5] = Inr \<lparr>pks = [5], locs = [1], wds = [2], prms = [0]\<rparr>"
  by code_simp

text \<open>
  C4 amended: every strictly increasing and every strictly decreasing signal of three
  samples or more in which no product of two adjacent differences is smaller in magnitude
  than the smallest positive float64, \<open>1 / 2 ^ 1074\<close>, gives four empty sequences.
\<close>

theorem find_peaks_troughs_monotonic_empty:
  assumes "3 \<le> length vctr" and "sorted_wrt (<) vctr \<or> sorted_wrt (>) vctr"
    and "products_above_underflow vctr"
  shows "find_peaks_troughs vctr = Inr \<lparr>pks = [], locs = [], wds = [], prms = []\<rparr>"
proof -
  have "\<forall>i < length (mlt_of vctr). \<not> mlt_of vctr ! i \<le> 0"
    using assms(2,3) mlt_pos_incr[of vctr] mlt_pos_decr[of vctr]
    by (auto simp: length_mlt_of not_le)
  then have "np_where (\<lambda>m. m \<le> 0) (mlt_of vctr) = []"
    by (simp add: np_where_empty)
  then show ?thesis using assms(1) by (intro fpt_no_extrema) simp_all
qed

theorem find_peaks_troughs_monotonic_empty_witness:
  "3 \<le> length [1, 2, 4, 8 :: real]
   \<and> (sorted_wrt (<) [1, 2, 4, 8 :: real] \<or> sorted_wrt (>) [1, 2, 4, 8 :: real])
   \<and> products_above_underflow [1, 2, 4, 8]
   \<and> find_peaks_troughs [1, 2, 4, 8] = Inr \<lparr>pks = [], locs = [], wds = [], prms = []\<rparr>"
proof -
  have h1: "3 \<le> length [1, 2, 4, 8 :: real]" by simp
  have h2: "sorted_wrt (<) [1, 2, 4, 8 :: real] \<or> sorted_wrt (>) [1, 2, 4, 8 :: real]"
    by simp
  have h3: "products_above_underflow [1, 2, 4, 8]"
    using min_subnormal_le_1 by (simp add: products_above_underflow_def upt_rec numeral_nat)
  show ?thesis
    using h1 h2 h3 find_peaks_troughs_monotonic_empty[OF h1 h2 h3] by blast
qed

subsection \<open>Locations are never zero\<close>

text \<open>Whatever the last step of the second branch returns is one of the locations it was
  given, so every index the second branch returns is at least 1.\<close>

lemma branch_B_select_mem:
  assumes "branch_B_select l i = Inr x"
  shows "x \<in> set l"
proof -
  have r: "i + 1 < length l" using assms by (simp add: branch_B_select_def split: if_splits)
  then have ne: "l \<noteq> []" by auto
  have a: "l ! (i + 1) \<in> set l" using r by (rule nth_mem)
  have b: "l ! (length l - 2) \<in> set l" using ne by (intro nth_mem) simp
  have c: "last l \<in> set l" using ne by simp
  show ?thesis
    using assms r a b c by (auto simp: branch_B_select_def Let_def split: if_splits)
qed

lemma branch_B_result_ge1:
  assumes "find_peaks_troughs sgnl = Inr ex"
    and "branch_B param (locs ex) tstmean r r' = Inr x"
  shows "1 \<le> x"
proof -
  obtain s k j where "branch_B_select (take k (drop s (locs ex))) j = Inr x"
    using assms(2) unfolding branch_B_def Let_def
    by (auto split: list.splits)
  then have "x \<in> set (take k (drop s (locs ex)))" by (rule branch_B_select_mem)
  then have "x \<in> set (locs ex)" by (meson in_set_takeD in_set_dropD)
  then show ?thesis using fpt_locs_ge1[OF assms(1)] by blast
qed

text \<open>
  C10. Every location the extremum finder returns is at least 1. The last step of the
  second branch of the extension detector works on a part \<open>locs2\<close> of these locations
  (some dropped at the front, some at the back); whenever the index after \<open>idx\<close> is in
  range, the location there is not zero and is the result, so the fallback to the
  second-to-last or last location is not taken.
\<close>

theorem branch_B_select_no_fallback:
  assumes "find_peaks_troughs sgnl = Inr ex"
    and "locs2 = take k (drop s (locs ex))"
    and "idx + 1 < length locs2"
  shows "(\<forall>l \<in> set (locs ex). 1 \<le> l)
       \<and> locs2 ! (idx + 1) \<noteq> 0
       \<and> branch_B_select locs2 idx = Inr (locs2 ! (idx + 1))"
proof -
  have ge: "\<forall>l \<in> set (locs ex). 1 \<le> l" using fpt_locs_ge1[OF assms(1)] by blast
  have "locs2 ! (idx + 1) \<in> set locs2" using assms(3) by (rule nth_mem)
  then have "locs2 ! (idx + 1) \<in> set (locs ex)"
    unfolding assms(2) by (meson in_set_takeD in_set_dropD)
  then have nz: "locs2 ! (idx + 1) \<noteq> 0" using ge by fastforce
  then have "branch_B_select locs2 idx = Inr (locs2 ! (idx + 1))"
    using assms(3) by (simp add: branch_B_select_def Let_def)
  with ge nz show ?thesis by blast
qed

theorem branch_B_select_no_fallback_witness:
  "find_peaks_troughs [0, 1, 0, - 1, 0, 1, 0, - 1, 0] =
      Inr \<lparr>pks = [1, - 1, 1, - 1], locs = [1, 3, 5, 7], wds = [2, 4, 4, 4],
           prms = [1, 2, 2, 1]\<rparr>
   \<and> [1, 3, 5 :: int] =
       take 3 (drop 0 (locs \<lparr>pks = [1, - 1, 1, - 1], locs = [1, 3, 5, 7],
                              wds = [2, 4, 4, 4], prms = [1, 2, 2, 1]\<rparr>))
   \<and> (0::nat) + 1 < length [1, 3, 5 :: int]
   \<and> list_all (\<lambda>l. 1 \<le> l) [1, 3, 5, 7 :: int]
   \<and> [1, 3, 5 :: int] ! (0 + 1) \<noteq> 0
   \<and> branch_B_select [1, 3, 5] 0 = Inr 3"
proof -
  have h1: "find_peaks_troughs [0, 1, 0, - 1, 0, 1, 0, - 1, 0] =
      Inr \<lparr>pks = [1, - 1, 1, - 1], locs = [1, 3, 5, 7], wds = [2, 4, 4, 4],
           prms = [1, 2, 2, 1]\<rparr>"
    by code_simp
  have h2: "[1, 3, 5 :: int] =
       take 3 (drop 0 (locs \<lparr>pks = [1, - 1, 1, - 1], locs = [1, 3, 5, 7],
                              wds = [2, 4, 4, 4], prms = [1, 2, 2, 1]\<rparr>))"
    by simp
  have h3: "(0::nat) + 1 < length [1, 3, 5 :: int]" by simp
  show ?thesis using h1 h2 h3 branch_B_select_no_fallback[OF h1 h2 h3] by simp
qed

subsection \<open>Normalization\<close>

lemma sorted_last_Max:
  fixes ys :: "real list"
  assumes "sorted ys" and "ys \<noteq> []"
  shows "last ys = Max (set ys)"
proof -
  have "y \<le> last ys" if mem: "y \<in> set ys" for y
  proof -
    obtain i where i: "i < length ys" "ys ! i = y"
      using mem unfolding in_set_conv_nth by blast
    have "ys ! i \<le> ys ! (length ys - 1)"
      using assms(1) i(1) by (intro sorted_nth_mono) simp_all
    then show ?thesis using i(2) assms(2) by (simp add: last_conv_nth)
  qed
  moreover have "last ys \<in> set ys" using assms(2) by simp
  ultimately show ?thesis by (intro Max_eqI[symmetric]) simp_all
qed

lemma rev_sort_0:
  fixes xs :: "real list"
  assumes "xs \<noteq> []"
  shows "rev (sort xs) ! 0 = Max (set xs)"
proof -
  have ne: "sort xs \<noteq> []" using assms by (metis length_0_conv length_sort)
  have "rev (sort xs) ! 0 = hd (rev (sort xs))"
    using ne by (simp add: hd_conv_nth)
  also have "\<dots> = last (sort xs)" using ne by (simp add: hd_rev)
  also have "\<dots> = Max (set (sort xs))" using ne by (intro sorted_last_Max) simp_all
  finally show ?thesis by simp
qed

lemma rev_sort_1_mem:
  fixes xs :: "real list"
  assumes "2 \<le> length xs"
  shows "rev (sort xs) ! 1 \<in> set xs"
proof -
  have "rev (sort xs) ! 1 \<in> set (rev (sort xs))" using assms by (intro nth_mem) simp
  then show ?thesis by simp
qed

lemma Max_divide:
  fixes xs :: "real list"
  assumes "xs \<noteq> []" and "0 < c"
  shows "Max (set (map (\<lambda>p. p / c) xs)) = Max (set xs) / c"
proof -
  have "mono (\<lambda>p :: real. p / c)" using assms(2) by (simp add: mono_def divide_right_mono)
  from mono_Max_commute[OF this, of "set xs"] assms(1)
  show ?thesis by simp
qed

lemma one_in_scaled:
  fixes xs :: "real list"
  assumes "c \<in> set xs" and "c \<noteq> 0"
  shows "1 \<in> set (map (\<lambda>p. p / c) xs)"
  using assms by (force simp: image_iff)

lemma normalize_param_Inr:
  assumes "normalize_param pks0 prominence = Inr param"
    and "nrm = rev (sort (map2 (\<lambda>p q. \<bar>p * q\<bar>) pks0 prominence))"
  shows "2 \<le> length (map2 (\<lambda>p q. \<bar>p * q\<bar>) pks0 prominence)"
    and "nrm ! 1 \<noteq> 0"
    and "nrm ! 0 / nrm ! 1 > 5 \<Longrightarrow> param = map (\<lambda>p. p / nrm ! 1) (map2 (\<lambda>p q. \<bar>p * q\<bar>) pks0 prominence)"
    and "\<not> nrm ! 0 / nrm ! 1 > 5 \<Longrightarrow> param = map (\<lambda>p. p / nrm ! 0) (map2 (\<lambda>p q. \<bar>p * q\<bar>) pks0 prominence)"
proof -
  have ln: "length nrm = length (map2 (\<lambda>p q. \<bar>p * q\<bar>) pks0 prominence)"
    unfolding assms(2) by simp
  have A: "(if length nrm < 2 then Inl IndexError
            else if nrm ! 1 = 0 then Inl NonFinite
            else if nrm ! 0 / nrm ! 1 > 5
              then Inr (map (\<lambda>p. p / nrm ! 1) (map2 (\<lambda>p q. \<bar>p * q\<bar>) pks0 prominence))
            else if nrm ! 0 = 0 then Inl NonFinite
            else Inr (map (\<lambda>p. p / nrm ! 0) (map2 (\<lambda>p q. \<bar>p * q\<bar>) pks0 prominence)))
           = Inr param"
    using assms(1) unfolding normalize_param_def Let_def assms(2)[symmetric] .
  have B: "\<not> length nrm < 2" using A by (auto split: if_splits)
  show "2 \<le> length (map2 (\<lambda>p q. \<bar>p * q\<bar>) pks0 prominence)"
    using B unfolding ln by linarith
  show "nrm ! 1 \<noteq> 0" using A B by (auto split: if_splits)
  show "param = map (\<lambda>p. p / nrm ! 1) (map2 (\<lambda>p q. \<bar>p * q\<bar>) pks0 prominence)"
    if "nrm ! 0 / nrm ! 1 > 5"
    using A B that by (simp split: if_splits)
  show "param = map (\<lambda>p. p / nrm ! 0) (map2 (\<lambda>p q. \<bar>p * q\<bar>) pks0 prominence)"
    if "\<not> nrm ! 0 / nrm ! 1 > 5"
    using A B that by (simp split: if_splits)
qed

text \<open>
  C5 as stated: with two extrema or more the maximum of the normalized series is exactly 1.
  It fails whenever the largest entry is more than five times the second largest: the
  source then divides by the second largest. The signal 0, 10, 0, 1, 0 has the extrema
  10, 0, 1 with prominences 10, 1, 1, so \<open>param\<close> is 100, 0, 1, the ratio is 100 and the
  normalized series is 100, 0, 1 with maximum 100.
\<close>

theorem normalize_param_max_counterexample:
  "find_peaks_troughs [0, 10, 0, 1, 0] =
     Inr \<lparr>pks = [10, 0, 1], locs = [1, 2, 3], wds = [1, 2, 3], prms = [10, 1, 1]\<rparr>
   \<and> normalize_param [10, 0, 1] [10, 1, 1] = Inr [100, 0, 1]
   \<and> Max (set [100, 0, 1 :: real]) = 100"
proof -
  have "find_peaks_troughs [0, 10, 0, 1, 0] =
     Inr \<lparr>pks = [10, 0, 1], locs = [1, 2, 3], wds = [1, 2, 3], prms = [10, 1, 1]\<rparr>"
    by code_simp
  moreover have "normalize_param [10, 0, 1] [10, 1, 1] = Inr [100, 0, 1]" by code_simp
  moreover have "Max (set [100, 0, 1 :: real]) = 100" by simp
  ultimately show ?thesis by blast
qed

text \<open>
  C5 amended: when normalization succeeds, the maximum of the normalized series is exactly
  1 if the largest entry is at most five times the second largest; otherwise the maximum is
  that ratio (above 5) and the entry that was second largest is exactly 1.
\<close>

theorem normalize_param_max:
  assumes "normalize_param pks0 prominence = Inr param"
    and "nrm = rev (sort (map2 (\<lambda>p q. \<bar>p * q\<bar>) pks0 prominence))"
  shows "(nrm ! 0 / nrm ! 1 \<le> 5 \<longrightarrow> Max (set param) = 1)
       \<and> (nrm ! 0 / nrm ! 1 > 5 \<longrightarrow> Max (set param) = nrm ! 0 / nrm ! 1 \<and> 1 \<in> set param)"
proof -
  let ?P = "map2 (\<lambda>p q. \<bar>p * q\<bar>) pks0 prominence"
  note N = normalize_param_Inr[OF assms]
  have nn: "0 \<le> x" if "x \<in> set ?P" for x using that by auto
  have ne: "?P \<noteq> []" using N(1) by auto
  have m1: "nrm ! 1 \<in> set ?P" unfolding assms(2) using N(1) by (rule rev_sort_1_mem)
  have p1: "0 < nrm ! 1" using nn[OF m1] N(2) by simp
  have n0: "nrm ! 0 = Max (set ?P)" unfolding assms(2) using ne by (rule rev_sort_0)
  have "nrm ! 1 \<le> nrm ! 0" unfolding n0 using m1 by (intro Max_ge) simp_all
  then have p0: "0 < nrm ! 0" using p1 by simp
  show ?thesis
  proof (cases "nrm ! 0 / nrm ! 1 > 5")
    case True
    note eq = N(3)[OF True]
    have "Max (set param) = nrm ! 0 / nrm ! 1"
      unfolding eq n0 using ne p1 by (rule Max_divide)
    moreover have "1 \<in> set param" unfolding eq using m1 N(2) by (rule one_in_scaled)
    ultimately show ?thesis using True by simp
  next
    case False
    note eq = N(4)[OF False]
    have "Max (set param) = Max (set ?P) / nrm ! 0"
      unfolding eq using ne p0 by (rule Max_divide)
    then have "Max (set param) = 1" using n0 p0 by simp
    then show ?thesis using False by simp
  qed
qed

theorem normalize_param_max_witness:
  "normalize_param [10, 0, 1] [10, 1, 1] = Inr [100, 0, 1]
   \<and> [100, 1, 0] = rev (sort (map2 (\<lambda>p q. \<bar>p * q\<bar>) [10, 0, 1] [10, 1, 1 :: real]))
   \<and> Max (set [100, 0, 1 :: real]) = 100 \<and> 1 \<in> set [100, 0, 1 :: real]
   \<and> normalize_param [1, - 1, 1, - 1] [1, 2, 2, 1] = Inr [1 / 2, 1, 1, 1 / 2]
   \<and> [2, 2, 1, 1] = rev (sort (map2 (\<lambda>p q. \<bar>p * q\<bar>) [1, - 1, 1, - 1] [1, 2, 2, 1 :: real]))
   \<and> Max (set [1 / 2, 1, 1, 1 / 2 :: real]) = 1"
proof -
  have h1: "normalize_param [10, 0, 1] [10, 1, 1] = Inr [100, 0, 1]" by code_simp
  have h2: "normalize_param [1, - 1, 1, - 1] [1, 2, 2, 1] = Inr [1 / 2, 1, 1, 1 / 2]" by code_simp
  have n1: "[100, 1, 0] = rev (sort (map2 (\<lambda>p q. \<bar>p * q\<bar>) [10, 0, 1] [10, 1, 1 :: real]))" by code_simp
  have n2: "[2, 2, 1, 1] = rev (sort (map2 (\<lambda>p q. \<bar>p * q\<bar>) [1, - 1, 1, - 1] [1, 2, 2, 1 :: real]))" by code_simp
  have r1: "Max (set [100, 0, 1 :: real]) = 100 \<and> 1 \<in> set [100, 0, 1 :: real]"
    using normalize_param_max[OF h1 n1] by simp
  have r2: "Max (set [1 / 2, 1, 1, 1 / 2 :: real]) = 1"
    using normalize_param_max[OF h2 n2] by simp
  show ?thesis using h1 h2 n1 n2 r1 r2 by blast
qed

subsection \<open>Which errors the detectors raise\<close>

lemma fpt_error: "find_peaks_troughs v = Inl e \<Longrightarrow> e = IndexError"
  by (auto simp: find_peaks_troughs_def np_delete_first_def np_delete_last_def Let_def
           split: sum.splits if_splits)

lemma normalize_param_error:
  "normalize_param p q = Inl e \<Longrightarrow> e = IndexError \<or> e = NonFinite"
  unfolding normalize_param_def Let_def by (simp split: if_splits)

lemma normalize_param_few:
  "length p < 2 \<or> length q < 2 \<Longrightarrow> normalize_param p q = Inl IndexError"
  unfolding normalize_param_def Let_def by auto

lemma fst_body_error:
  "fst_body v s = Inl e \<Longrightarrow> e = NonFinite \<or> e = UnboundLocalError"
  unfolding fst_body_def Let_def by (auto split: option.splits if_splits)

lemma fst_loop_error:
  "fst_loop v s = Inl e \<Longrightarrow> e = NonFinite \<or> e = UnboundLocalError"
proof (induction v s rule: fst_loop.induct)
  case (1 vctr s)
  show ?case
  proof (cases "fst_body vctr s")
    case (Inl e')
    then have "e = e'" using "1.prems" by (subst (asm) fst_loop.simps) simp
    then show ?thesis using fst_body_error[OF Inl] by simp
  next
    case (Inr s')
    show ?thesis
    proof (cases "fst_done vctr s'")
      case True
      then show ?thesis using "1.prems" Inr by (subst (asm) fst_loop.simps) simp
    next
      case False
      then have "fst_loop vctr s' = Inl e"
        using "1.prems" Inr by (subst (asm) fst_loop.simps) simp
      then show ?thesis using "1.IH"[OF Inr False] by simp
    qed
  qed
qed

lemma find_signal_threshold_error:
  "find_signal_threshold v = Inl e \<Longrightarrow> e = NonFinite \<or> e = UnboundLocalError"
  unfolding find_signal_threshold_def
  by (auto split: sum.splits option.splits dest: fst_loop_error)

lemma seg_loop_error:
  "seg_loop p n r s e t = Inl err \<Longrightarrow> err = NonFinite"
proof (induction p n r s e t rule: seg_loop.induct)
  case (1 param nnlocs refmaxthresh strt0 endd0 tstmean)
  show ?case
  proof (cases "np_mean (py_slice param strt0 endd0)")
    case None
    then show ?thesis using "1.prems" by (subst (asm) seg_loop.simps) simp
  next
    case (Some m)
    show ?thesis
    proof (cases "endd0 + 1 + nnlocs div 2 > length param \<or> m > refmaxthresh")
      case True
      then show ?thesis using "1.prems" Some
        by (subst (asm) seg_loop.simps) (simp add: Let_def)
    next
      case False
      then have "seg_loop param nnlocs refmaxthresh (endd0 + 1) (endd0 + 1 + nnlocs div 2)
                   (tstmean @ [(strt0, m)]) = Inl err"
        using "1.prems" Some by (subst (asm) seg_loop.simps) (simp add: Let_def)
      then show ?thesis using "1.IH"[OF Some refl refl refl] False by simp
    qed
  qed
qed

lemma branch_B_select_error: "branch_B_select l i = Inl e \<Longrightarrow> e = IndexError"
  unfolding branch_B_select_def Let_def by (simp split: if_splits)

lemma branch_A_error: "branch_A p l t r = Inl e \<Longrightarrow> e = IndexError"
  unfolding branch_A_def Let_def by (simp split: list.splits if_splits)

lemma branch_B_error: "branch_B p l t r r' = Inl e \<Longrightarrow> e = IndexError"
  unfolding branch_B_def Let_def
  by (auto split: list.splits if_splits dest: branch_B_select_error)

lemma flexure_error:
  "get_flexure_arrival sgnl = Inl e \<Longrightarrow> e = IndexError \<or> e = NonFinite \<or> e = UnboundLocalError"
  unfolding get_flexure_arrival_def
  by (auto split: sum.splits list.splits if_splits
      dest: fpt_error normalize_param_error find_signal_threshold_error)

lemma extension_error:
  "get_extension_arrival sgnl a b = Inl e \<Longrightarrow> e = IndexError \<or> e = ValueError \<or> e = NonFinite"
  unfolding get_extension_arrival_def Let_def
  by (auto split: sum.splits list.splits option.splits if_splits
      dest: fpt_error normalize_param_error seg_loop_error branch_A_error branch_B_error)

lemma flexure_few:
  assumes "length sgnl < 3 \<or> (\<exists>ex. find_peaks_troughs sgnl = Inr ex \<and> length (locs ex) < 2)"
  shows "get_flexure_arrival sgnl = Inl IndexError"
    and "get_extension_arrival sgnl a b = Inl IndexError"
proof -
  have "find_peaks_troughs sgnl = Inl IndexError
        \<or> (\<exists>ex. find_peaks_troughs sgnl = Inr ex \<and> length (pks ex) < 2)"
  proof (cases "find_peaks_troughs sgnl")
    case (Inl e)
    then show ?thesis using fpt_error[OF Inl] by simp
  next
    case (Inr ex)
    have two: "2 \<le> length sgnl" using Inr by (rule fpt_Inr_length)
    note L = fpt_locs[OF two Inr]
    have "length (locs ex) < 2"
    proof (cases "length sgnl < 3")
      case True
      then have "length (mlt_of sgnl) = 0" using two by (simp add: length_mlt_of)
      then have "np_where (\<lambda>m. m \<le> 0) (mlt_of sgnl) = []" by (simp add: np_where_def)
      then show ?thesis unfolding L(1) by simp
    next
      case False
      then show ?thesis using assms Inr by auto
    qed
    then show ?thesis using Inr L(2) by simp
  qed
  then show "get_flexure_arrival sgnl = Inl IndexError"
    and "get_extension_arrival sgnl a b = Inl IndexError"
    unfolding get_flexure_arrival_def get_extension_arrival_def
    by (auto simp: normalize_param_few)
qed

text \<open>
  C9 as stated: on a signal shorter than three samples, on fewer than two extrema or on an
  empty-slice mean each detector raises InsufficientDataError, DegenerateSignalError or
  NoArrivalFoundError. The source defines none of the three; on the one-sample signal 7
  both detectors raise the IndexError of \<^verbatim>\<open>np.delete\<close>.
\<close>

theorem detectors_raise_raw_errors_counterexample:
  "get_flexure_arrival [7] = Inl IndexError
   \<and> get_extension_arrival [7] 10 (1 / 1000000) = Inl IndexError
   \<and> IndexError \<notin> named_kinds"
proof -
  have "get_flexure_arrival [7] = Inl IndexError" by code_simp
  moreover have "get_extension_arrival [7] 10 (1 / 1000000) = Inl IndexError" by code_simp
  moreover have "IndexError \<notin> named_kinds" by (simp add: named_kinds_def)
  ultimately show ?thesis by blast
qed

text \<open>
  C9 amended: on a signal shorter than three samples, and on any signal with fewer than two
  extrema, each detector raises IndexError; and no detector ever raises one of the three
  named error kinds.
\<close>

theorem detectors_raise_raw_errors:
  "(length sgnl < 3 \<or> (\<exists>ex. find_peaks_troughs sgnl = Inr ex \<and> length (locs ex) < 2)
      \<longrightarrow> get_flexure_arrival sgnl = Inl IndexError
        \<and> get_extension_arrival sgnl noisemult noisemin = Inl IndexError)
   \<and> (\<forall>e. get_flexure_arrival sgnl = Inl e \<longrightarrow> e \<notin> named_kinds)
   \<and> (\<forall>e. get_extension_arrival sgnl noisemult noisemin = Inl e \<longrightarrow> e \<notin> named_kinds)"
proof (intro conjI impI allI)
  fix e assume "get_flexure_arrival sgnl = Inl e"
  from flexure_error[OF this] show "e \<notin> named_kinds" by (auto simp: named_kinds_def)
next
  fix e assume "get_extension_arrival sgnl noisemult noisemin = Inl e"
  from extension_error[OF this] show "e \<notin> named_kinds" by (auto simp: named_kinds_def)
qed (simp_all add: flexure_few)

theorem detectors_raise_raw_errors_witness:
  "find_peaks_troughs [1, 2, 3] = Inr \<lparr>pks = [], locs = [], wds = [], prms = []\<rparr>
   \<and> length (locs \<lparr>pks = [], locs = [], wds = [], prms = []\<rparr>) < 2
   \<and> get_flexure_arrival [1, 2, 3] = Inl IndexError
   \<and> get_extension_arrival [1, 2, 3] 10 (1 / 1000000) = Inl IndexError"
proof -
  have h: "find_peaks_troughs [1, 2, 3] = Inr \<lparr>pks = [], locs = [], wds = [], prms = []\<rparr>"
    by code_simp
  then have hyp: "length [1, 2, 3 :: real] < 3
      \<or> (\<exists>ex. find_peaks_troughs [1, 2, 3] = Inr ex \<and> length (locs ex) < 2)"
    by simp
  show ?thesis
    using h hyp detectors_raise_raw_errors[of "[1, 2, 3]" 10 "1 / 1000000"] by simp
qed

subsection \<open>No entry above the threshold\<close>

text \<open>Whenever no entry of \<open>param\<close> exceeds the threshold, the flexure detector raises
  IndexError, and so does the first branch of the extension detector: the index is read
  from the empty result of \<^verbatim>\<open>np.where\<close> before \<^verbatim>\<open>if not idx\<close> is reached.\<close>

lemma flexure_no_crossing:
  assumes "find_peaks_troughs sgnl = Inr ex"
    and "normalize_param (pks ex) (prms ex) = Inr param"
    and "find_signal_threshold param = Inr th"
    and "np_where (\<lambda>p. p > th) param = []"
  shows "get_flexure_arrival sgnl = Inl IndexError"
  using assms by (simp add: get_flexure_arrival_def)

lemma branch_A_no_crossing:
  assumes "np_where (\<lambda>p. p > r) param = []"
  shows "branch_A param l t r = Inl IndexError"
proof -
  have "np_where (\<lambda>p. p > r) (drop c param) = []" for c
    using assms by (auto simp: np_where_empty dest: in_set_dropD)
  then show ?thesis unfolding branch_A_def Let_def by (simp split: list.splits)
qed

lemma branch_A_no_segment_below:
  assumes "np_where (\<lambda>m. m < r) (map snd t) = []"
  shows "branch_A param l t r = Inl IndexError"
  using assms by (simp add: branch_A_def)

text \<open>
  C3. The claim is that both detectors return 0 when no normalized entry exceeds the
  threshold. The code at two such inputs: the signal 0, 1, -1, 0 has \<open>param\<close> 1, 1 and
  threshold 1; the 120-sample signal 0, 1, -1, 1, ..., 1 has \<open>param\<close> 1/2, 1, ..., 1 and
  reference noise 1. Both calls end in IndexError.
\<close>

theorem sentinel_missed_IndexError:
  "find_peaks_troughs [0, 1, - 1, 0] = Inr \<lparr>pks = [1, - 1], locs = [1, 2], wds = [1, 3], prms = [1, 1]\<rparr>
   \<and> normalize_param [1, - 1] [1, 1] = Inr [1, 1]
   \<and> find_signal_threshold [1, 1] = Inr 1
   \<and> np_where ((<) 1) [1, 1 :: real] = []
   \<and> get_flexure_arrival [0, 1, - 1, 0] = Inl IndexError
   \<and> get_extension_arrival (0 # concat (replicate 59 [1, - 1]) @ [1]) 10 (1 / 1000000) = Inl IndexError"
proof -
  have "find_peaks_troughs [0, 1, - 1, 0] = Inr \<lparr>pks = [1, - 1], locs = [1, 2], wds = [1, 3], prms = [1, 1]\<rparr>"
    by code_simp
  moreover have "normalize_param [1, - 1] [1, 1] = Inr [1, 1]" by code_simp
  moreover have "find_signal_threshold [1, 1] = Inr 1" by code_simp
  moreover have "np_where ((<) 1) [1, 1 :: real] = []" by code_simp
  moreover have "get_flexure_arrival [0, 1, - 1, 0] = Inl IndexError" by code_simp
  moreover have "get_extension_arrival (0 # concat (replicate 59 [1, - 1]) @ [1]) 10 (1 / 1000000) = Inl IndexError"
    by code_simp
  ultimately show ?thesis by blast
qed

text \<open>
  C8. The claim is that the first branch falls back to the second segment when no segment
  mean is below the reference noise. The code on the 120-sample signal -1, 1, ..., -1, 1:
  every entry of \<open>param\<close> is 1, the reference noise is 1, every segment mean is 1, no
  segment is below it, and the call ends in IndexError.
\<close>

theorem branch_A_no_segment_IndexError:
  "normalize_param (concat (replicate 59 [1, - 1])) (replicate 118 2) = Inr (replicate 118 1)
   \<and> seg_loop (replicate 118 1) 2 10 0 1 [] = Inr (zip (map ((*) 2) [0..<59]) (replicate 59 1))
   \<and> np_where (\<lambda>m. m < 1) (map snd (zip (map ((*) 2) [0..<59]) (replicate 59 (1::real)))) = []
   \<and> get_extension_arrival (concat (replicate 60 [- 1, 1])) 10 (1 / 1000000) = Inl IndexError"
proof -
  have "normalize_param (concat (replicate 59 [1, - 1])) (replicate 118 2) = Inr (replicate 118 1)"
    by code_simp
  moreover have "seg_loop (replicate 118 1) 2 10 0 1 [] = Inr (zip (map ((*) 2) [0..<59]) (replicate 59 1))"
    by code_simp
  moreover have "np_where (\<lambda>m. m < 1) (map snd (zip (map ((*) 2) [0..<59]) (replicate 59 (1::real)))) = []"
    by code_simp
  moreover have "get_extension_arrival (concat (replicate 60 [- 1, 1])) 10 (1 / 1000000) = Inl IndexError"
    by code_simp
  ultimately show ?thesis by blast
qed

subsection \<open>The segments of the extension detector\<close>

text \<open>When the loop goes on, the next segment starts at \<open>endd + 1\<close>, while the segment
  just recorded ended before \<open>endd\<close>: the entry at \<open>endd\<close> is in neither.\<close>

lemma seg_loop_next:
  assumes "np_mean (py_slice param s e) = Some m"
    and "\<not> (e + 1 + n div 2 > length param \<or> m > r)"
  shows "seg_loop param n r s e t = seg_loop param n r (e + 1) (e + 1 + n div 2) (t @ [(s, m)])"
  using assms by (subst seg_loop.simps) (simp add: Let_def)

text \<open>
  C7. The claim is that the recorded segments follow each other with no entry skipped.
  The code on the 15-sample signal 0, 1, -1, ..., 1, -10, 10, 0: with \<open>nnlocs = 2\<close> the
  segments have length 1 and start at 0, 2, 4, ..., 12, so the entries at 1, 3, ..., 11 are
  in no segment; the entry at 11 is the dominant one, of value 1.
\<close>

theorem seg_loop_skips_between_segments:
  "normalize_param [1, - 1, 1, - 1, 1, - 1, 1, - 1, 1, - 1, 1, - 10, 10]
                   [1, 2, 2, 2, 2, 2, 2, 2, 2, 2, 2, 11, 10]
     = Inr [1 / 110, 1 / 55, 1 / 55, 1 / 55, 1 / 55, 1 / 55, 1 / 55, 1 / 55, 1 / 55, 1 / 55,
            1 / 55, 1, 10 / 11]
   \<and> seg_loop [1 / 110, 1 / 55, 1 / 55, 1 / 55, 1 / 55, 1 / 55, 1 / 55, 1 / 55, 1 / 55, 1 / 55,
               1 / 55, 1, 10 / 11] 2 (2 / 11) 0 1 []
     = Inr [(0, 1 / 110), (2, 1 / 55), (4, 1 / 55), (6, 1 / 55), (8, 1 / 55), (10, 1 / 55),
            (12, 10 / 11)]
   \<and> get_extension_arrival [0, 1, - 1, 1, - 1, 1, - 1, 1, - 1, 1, - 1, 1, - 10, 10, 0] 10
        (1 / 1000000) = Inr 12"
proof -
  have "normalize_param [1, - 1, 1, - 1, 1, - 1, 1, - 1, 1, - 1, 1, - 10, 10]
                   [1, 2, 2, 2, 2, 2, 2, 2, 2, 2, 2, 11, 10]
     = Inr [1 / 110, 1 / 55, 1 / 55, 1 / 55, 1 / 55, 1 / 55, 1 / 55, 1 / 55, 1 / 55, 1 / 55,
            1 / 55, 1, 10 / 11]" by code_simp
  moreover have "seg_loop [1 / 110, 1 / 55, 1 / 55, 1 / 55, 1 / 55, 1 / 55, 1 / 55, 1 / 55, 1 / 55, 1 / 55,
               1 / 55, 1, 10 / 11] 2 (2 / 11) 0 1 []
     = Inr [(0, 1 / 110), (2, 1 / 55), (4, 1 / 55), (6, 1 / 55), (8, 1 / 55), (10, 1 / 55),
            (12, 10 / 11)]" by code_simp
  moreover have "get_extension_arrival [0, 1, - 1, 1, - 1, 1, - 1, 1, - 1, 1, - 1, 1, - 10, 10, 0] 10
        (1 / 1000000) = Inr 12" by code_simp
  ultimately show ?thesis by blast
qed

subsection \<open>The threshold loop\<close>

lemma fst_inv_init: "fst_inv fst_init"
  by (simp add: fst_inv_def fst_init_def)

lemma noiseMin_pos: "0 < noiseMin"
  by (simp add: noiseMin_def)

lemma window_nonempty:
  assumes "strt s < length vctr" and "endd s = strt s + 25"
  shows "\<exists>m. np_mean (py_slice vctr (strt s) (endd s)) = Some m"
  using assms by (simp add: np_mean_def py_slice_def)

lemma fst_body_step:
  assumes inv: "fst_inv s" and m: "np_mean (py_slice vctr (strt s) (endd s)) = Some m"
  shows "\<exists>s'. fst_body vctr s = Inr s' \<and> fst_inv s'
           \<and> strt s' = strt s + incr \<and> endd s' = endd s + incr
           \<and> (if noiseMin < m
               then upcnt s' = upcnt s + 1
                    \<and> thresh s' = (if 0 < upcnt s then thresh s else Some m)
               else upcnt s' = 0 \<and> thresh s' = Some m)
           \<and> (fst_done vctr s' \<longleftrightarrow> length vctr < endd s' \<or> upcntLim < upcnt s')"
proof (cases "noiseMin < m")
  case True
  show ?thesis
  proof (cases "0 < upcnt s")
    case up: True
    then obtain t where t: "thresh s = Some t" "noiseMin < t"
      using inv by (auto simp: fst_inv_def split: option.splits)
    then have tr: "truthy (thresh s)" using noiseMin_pos by (simp add: truthy_def)
    show ?thesis
      using True up t tr inv m
      by (simp add: fst_body_def Let_def fst_inv_def fst_done_def incr_def)
  next
    case up: False
    show ?thesis
      using True up inv m
      by (simp add: fst_body_def Let_def fst_inv_def fst_done_def incr_def upcntLim_def)
  qed
next
  case False
  then show ?thesis
    using inv m
    by (auto simp: fst_body_def Let_def fst_inv_def fst_done_def incr_def upcntLim_def)
qed

lemma fst_loop_returns:
  assumes "fst_inv s" and "strt s < length vctr"
  shows "\<exists>r. fst_loop vctr s = Inr r \<and> fst_inv r \<and> fst_done vctr r \<and> thresh r \<noteq> None"
  using assms
proof (induction vctr s rule: fst_loop.induct)
  case (1 vctr s)
  have e: "endd s = strt s + 25" using "1.prems"(1) by (simp add: fst_inv_def)
  obtain m where m: "np_mean (py_slice vctr (strt s) (endd s)) = Some m"
    using window_nonempty[OF "1.prems"(2) e] by blast
  obtain s' where s': "fst_body vctr s = Inr s'" "fst_inv s'"
      "strt s' = strt s + incr" "endd s' = endd s + incr"
      "thresh s' = Some m \<or> thresh s' = thresh s \<and> 0 < upcnt s"
    using fst_body_step[OF "1.prems"(1) m] by (auto split: if_splits)
  have some: "thresh s' \<noteq> None"
    using s'(5) "1.prems"(1) by (auto simp: fst_inv_def split: option.splits if_splits)
  show ?case
  proof (cases "fst_done vctr s'")
    case True
    then show ?thesis using s' some by (subst fst_loop.simps) simp
  next
    case False
    then have "endd s' \<le> length vctr" by (simp add: fst_done_def)
    then have "strt s' < length vctr" using s'(2) by (simp add: fst_inv_def)
    from "1.IH"[OF s'(1) False s'(2) this]
    show ?thesis using s'(1) False by (subst fst_loop.simps) simp
  qed
qed

lemma find_signal_threshold_returns:
  assumes "vctr \<noteq> []"
  shows "\<exists>t. find_signal_threshold vctr = Inr t"
proof -
  have "strt fst_init < length vctr" using assms by (simp add: fst_init_def)
  from fst_loop_returns[OF fst_inv_init this]
  show ?thesis by (auto simp: find_signal_threshold_def)
qed




end
